theory Spec2Isabelle
  imports Complex_Main
begin

section \<open>Data model\<close>

text \<open>
  The three scripts of the repository (\<^verbatim>\<open>bot_final_liquidations.py\<close>,
  \<^verbatim>\<open>bot_railway.py\<close>, \<^verbatim>\<open>bot_railway_futures.py\<close>) poll the Hyperliquid
  \<^verbatim>\<open>recentTrades\<close> endpoint, pick the trades they take for liquidations and send
  one Telegram message for each.

  Numbers. Python floats are modelled as rationals: every finite double is a rational,
  comparison of doubles (and of a double with an int) is exact, and the products and
  quotients of the code are taken exactly, without the rounding of binary floating point.
  On the values of the scenarios below (3.0, 60000, 180000, 1500000, 45000, 900) the
  double operations are exact, so model and code agree there. Infinities and NaN are
  outside the model.

  Strings are lists of bytes; \<^verbatim>\<open>str.lower\<close> and \<^verbatim>\<open>str.upper\<close> are
  modelled on the ASCII letters and leave every other byte as it is.

  A trade is a JSON object read with \<^verbatim>\<open>trade.get(key, default)\<close>. A key of it is
  absent (\<open>Missing\<close>, the default is taken), holds a value of the expected type
  (\<open>Val\<close>), or holds a value on which the operation the loop applies to it raises
  (\<open>Bad\<close>: an unhashable \<^verbatim>\<open>hash\<close>, a \<^verbatim>\<open>time\<close> that does not compare with a
  float, an \<^verbatim>\<open>sz\<close> or \<^verbatim>\<open>px\<close> that \<^verbatim>\<open>float()\<close> rejects, a
  \<^verbatim>\<open>users\<close> without \<^verbatim>\<open>len\<close>, a \<^verbatim>\<open>side\<close> that is not a string).
\<close>

datatype 'a json_field = Missing | Bad | Val 'a

record trade =
  t_time :: "rat json_field"
  t_hash :: "string json_field"
  t_sz :: "rat json_field"
  t_px :: "rat json_field"
  t_side :: "string json_field"
  t_users :: "string list json_field"

text \<open>
  The dictionary \<^verbatim>\<open>liquidation\<close> built by \<^verbatim>\<open>analyze_coin_liquidations\<close>. Its
  \<^verbatim>\<open>side\<close> is whatever \<^verbatim>\<open>trade.get('side', '')\<close> returned: \<open>None\<close> stands for
  a value that is not a string.
\<close>

record liquidation =
  l_coin :: string
  l_sz :: rat
  l_px :: rat
  l_side :: "string option"
  l_value_usd :: rat
  l_time :: rat
  l_hash :: string
  l_users :: "string list"

text \<open>
  The answer to one \<^verbatim>\<open>recentTrades\<close> request. \<open>FetchError\<close> is every way in which
  the request, the JSON decoding or the start of the iteration raises (timeout, HTTP
  error, malformed body, a body that is not iterable).
\<close>

datatype response = FetchError | Trades "trade list"

text \<open>The fields of \<^verbatim>\<open>HyperliquidLiquidationsBot\<close> that the scan reads and writes.\<close>

record bot =
  min_liquidation_value :: int
  liquidations_count :: nat
  processed_hashes :: "string set"

section \<open>Formatting numbers and strings as Python does\<close>

definition digit_char :: "nat \<Rightarrow> char" where
  "digit_char d = char_of (48 + d)"

fun str_nat :: "nat \<Rightarrow> string" where
  "str_nat n = (if n < 10 then [digit_char n] else str_nat (n div 10) @ [digit_char (n mod 10)])"

declare str_nat.simps [simp del]

text \<open>Rounding to the nearest integer, ties to the even one, as the \<^verbatim>\<open>f\<close> format rounds.\<close>

definition round_half_even :: "rat \<Rightarrow> int" where
  "round_half_even x =
     (let f = \<lfloor>x\<rfloor>; d = x - of_int f
      in if d < 1 / 2 then f
         else if 1 / 2 < d then f + 1
         else if even f then f else f + 1)"

definition zero_pad :: "nat \<Rightarrow> string \<Rightarrow> string" where
  "zero_pad w s = replicate (w - length s) (CHR ''0'') @ s"

fun commas_rev :: "string \<Rightarrow> string" where
  "commas_rev (a # b # c # d # rest) = a # b # c # CHR '','' # commas_rev (d # rest)"
| "commas_rev xs = xs"

definition group_thousands :: "string \<Rightarrow> string" where
  "group_thousands s = rev (commas_rev (rev s))"

text \<open>
  \<^verbatim>\<open>f"{x:.<p>f}"\<close> (\<open>grouped = False\<close>) and \<^verbatim>\<open>f"{x:,.<p>f}"\<close> (\<open>grouped = True\<close>):
  the sign, the integer digits, and the point with \<open>p\<close> digits when \<open>p > 0\<close>.
\<close>

definition format_f :: "bool \<Rightarrow> nat \<Rightarrow> rat \<Rightarrow> string" where
  "format_f grouped p x =
     (let n = nat (round_half_even (\<bar>x\<bar> * 10 ^ p));
          ip = str_nat (n div 10 ^ p);
          fp = zero_pad p (str_nat (n mod 10 ^ p))
      in (if x < 0 then ''-'' else '''')
         @ (if grouped then group_thousands ip else ip)
         @ (if p = 0 then '''' else ''.'' @ fp))"

definition lower_char :: "char \<Rightarrow> char" where
  "lower_char c =
     (let n = (of_char c :: nat) in if 65 \<le> n \<and> n \<le> 90 then char_of (n + 32) else c)"

definition upper_char :: "char \<Rightarrow> char" where
  "upper_char c =
     (let n = (of_char c :: nat) in if 97 \<le> n \<and> n \<le> 122 then char_of (n - 32) else c)"

definition lower :: "string \<Rightarrow> string" where
  "lower s = map lower_char s"

definition upper :: "string \<Rightarrow> string" where
  "upper s = map upper_char s"

text \<open>The emoji of the messages, as their UTF-8 bytes.\<close>

definition green_circle :: string where
  "green_circle = [CHR 0xF0, CHR 0x9F, CHR 0x9F, CHR 0xA2]"

definition red_circle :: string where
  "red_circle = [CHR 0xF0, CHR 0x9F, CHR 0x94, CHR 0xB4]"

definition siren :: string where
  "siren = [CHR 0xF0, CHR 0x9F, CHR 0x9A, CHR 0xA8]"

definition warning_sign :: string where
  "warning_sign = [CHR 0xE2, CHR 0x9A, CHR 0xA0, CHR 0xEF, CHR 0xB8, CHR 0x8F]"

section \<open>\<^verbatim>\<open>bot_final_liquidations.py\<close>: classification of the trades of one coin\<close>

text \<open>
  \<open>get_or f d\<close> is \<^verbatim>\<open>trade.get(key, d)\<close> followed by the operation of the loop on
  the value: \<open>None\<close> when that operation raises.
\<close>

definition get_or :: "'a json_field \<Rightarrow> 'a \<Rightarrow> 'a option" where
  "get_or f d = (case f of Missing \<Rightarrow> Some d | Bad \<Rightarrow> None | Val v \<Rightarrow> Some v)"

text \<open>Criterion 2 of the loop: the size threshold of the coin.\<close>

definition size_tier :: "string \<Rightarrow> rat \<Rightarrow> bool" where
  "size_tier coin sz =
     (if coin = ''BTC'' then 2 \<le> sz
      else if coin = ''ETH'' then 20 \<le> sz
      else if coin \<in> set [''SOL'', ''AVAX'', ''MATIC'', ''DOT'', ''LINK''] then 1000 \<le> sz
      else if coin \<in> set [''DOGE'', ''XRP'', ''ADA''] then 50000 \<le> sz
      else 5000 \<le> sz)"

text \<open>
  The body of the loop over the trades, for one trade: \<open>Some\<close> of the liquidation it
  appends, \<open>None\<close> when it reaches a \<^verbatim>\<open>continue\<close>, the end of the body with
  \<^verbatim>\<open>is_liquidation\<close> false, or the \<^verbatim>\<open>except Exception: continue\<close> of the body.
\<close>

definition analyze_trade :: "int \<Rightarrow> string \<Rightarrow> rat \<Rightarrow> string set \<Rightarrow> trade \<Rightarrow> liquidation option" where
  "analyze_trade min_value coin five_minutes_ago processed t =
     (case get_or (t_hash t) '''' of
        None \<Rightarrow> None
      | Some trade_hash \<Rightarrow>
          if trade_hash \<in> processed then None
          else
            (case get_or (t_time t) 0 of
               None \<Rightarrow> None
             | Some trade_time \<Rightarrow>
                 if trade_time < five_minutes_ago then None
                 else
                   (case get_or (t_sz t) 0 of
                      None \<Rightarrow> None
                    | Some sz \<Rightarrow>
                        (case get_or (t_px t) 0 of
                           None \<Rightarrow> None
                         | Some px \<Rightarrow>
                             let side = (case t_side t of Missing \<Rightarrow> Some '''' | Bad \<Rightarrow> None
                                          | Val s \<Rightarrow> Some s);
                                 value_usd = sz * px
                             in if value_usd < of_int min_value then None
                                else
                                  (case get_or (t_users t) [] of
                                     None \<Rightarrow> None
                                   | Some users \<Rightarrow>
                                       let is_liquidation = size_tier coin sz;
                                           is_liquidation =
                                             (if 2 \<le> length users then True else is_liquidation);
                                           is_liquidation =
                                             (if 100000 \<le> value_usd then True else is_liquidation)
                                       in if is_liquidation
                                          then Some \<lparr>l_coin = coin, l_sz = sz, l_px = px,
                                                 l_side = side, l_value_usd = value_usd,
                                                 l_time = trade_time, l_hash = trade_hash,
                                                 l_users = users\<rparr>
                                          else None)))))"

text \<open>
  The loop: the list \<^verbatim>\<open>liquidations\<close> and the set \<^verbatim>\<open>self.processed_hashes\<close> are
  the state; a liquidation is appended and its hash added in the same step.
\<close>

fun analyze_loop ::
  "int \<Rightarrow> string \<Rightarrow> rat \<Rightarrow> trade list \<Rightarrow> liquidation list \<times> string set \<Rightarrow> liquidation list \<times> string set"
where
  "analyze_loop min_value coin cutoff [] st = st"
| "analyze_loop min_value coin cutoff (t # ts) st =
     (case analyze_trade min_value coin cutoff (snd st) t of
        None \<Rightarrow> analyze_loop min_value coin cutoff ts st
      | Some l \<Rightarrow>
          analyze_loop min_value coin cutoff ts (fst st @ [l], insert (l_hash l) (snd st)))"

text \<open>
  \<^verbatim>\<open>analyze_coin_liquidations(coin)\<close>. \<open>current_time\<close> is \<^verbatim>\<open>time.time() * 1000\<close> as
  read by this call, \<open>resp\<close> the answer of the API to it. The function has no
  \<^verbatim>\<open>await\<close>, so the calls that \<^verbatim>\<open>asyncio.gather\<close> starts run one after the other.
\<close>

definition analyze_coin_liquidations :: "bot \<Rightarrow> string \<Rightarrow> rat \<Rightarrow> response \<Rightarrow> liquidation list \<times> bot" where
  "analyze_coin_liquidations b coin current_time resp =
     (case resp of
        FetchError \<Rightarrow> ([], b)
      | Trades trades \<Rightarrow>
          if trades = [] then ([], b)
          else
            let five_minutes_ago = current_time - 5 * 60 * 1000;
                r = analyze_loop (min_liquidation_value b) coin five_minutes_ago trades
                      ([], processed_hashes b)
            in (fst r, b\<lparr>processed_hashes := snd r\<rparr>))"

section \<open>\<^verbatim>\<open>bot_final_liquidations.py\<close>: the alert\<close>

text \<open>The amount of the message (\<^verbatim>\<open>amount_str\<close>).\<close>

definition amount_str :: "rat \<Rightarrow> string" where
  "amount_str value_usd =
     (if 1000000 \<le> value_usd then ''$'' @ format_f False 1 (value_usd / 1000000) @ ''M''
      else if 1000 \<le> value_usd then ''$'' @ format_f False 0 (value_usd / 1000) @ ''K''
      else ''$'' @ format_f False 0 value_usd)"

definition direction_final :: "string \<Rightarrow> string \<times> string" where
  "direction_final side =
     (if lower side \<in> set [''sell'', ''short'', ''s''] then (green_circle, ''SHORT'')
      else (red_circle, ''LONG''))"

text \<open>
  \<^verbatim>\<open>send_liquidation_alert\<close>: the text handed to \<^verbatim>\<open>TelegramBot.send_message\<close>, or
  \<open>None\<close> when \<^verbatim>\<open>side.lower()\<close> raises and the \<^verbatim>\<open>except\<close> of the function only logs.
\<close>

definition send_liquidation_alert :: "liquidation \<Rightarrow> string option" where
  "send_liquidation_alert l =
     (case l_side l of
        None \<Rightarrow> None
      | Some side \<Rightarrow>
          let users_count = length (l_users l);
              point = fst (direction_final side);
              direction = snd (direction_final side);
              confidence =
                (if 2 \<le> users_count \<or> 100000 \<le> l_value_usd l then siren else warning_sign)
          in Some (confidence @ '' '' @ point @ '' #'' @ l_coin l @ '' '' @ direction @ '' ''
                   @ amount_str (l_value_usd l) @ '' @$'' @ format_f False 4 (l_px l)))"

section \<open>\<^verbatim>\<open>bot_final_liquidations.py\<close>: the scan\<close>

text \<open>\<^verbatim>\<open>HyperliquidLiquidationsBot.__init__\<close>, with the configured minimum value.\<close>

definition init_bot :: "int \<Rightarrow> bot" where
  "init_bot min_value =
     \<lparr>min_liquidation_value = min_value, liquidations_count = 0, processed_hashes = {}\<rparr>"

text \<open>
  The answer to the \<^verbatim>\<open>meta\<close> request: the request or its decoding raises
  (\<open>MetaError\<close>), the result is empty or has no key \<^verbatim>\<open>universe\<close>
  (\<open>NoUniverse\<close>), or it has one: the list of its assets, each with its
  \<^verbatim>\<open>name\<close> when it has this key. Names are strings.
\<close>

datatype meta_response = MetaError | NoUniverse | Universe "string option list"

definition get_all_coins :: "meta_response \<Rightarrow> string list" where
  "get_all_coins resp =
     (case resp of
        MetaError \<Rightarrow> [''BTC'', ''ETH'', ''SOL'', ''AVAX'', ''DOGE'']
      | NoUniverse \<Rightarrow> [''BTC'', ''ETH'', ''SOL'', ''AVAX'', ''DOGE'']
      | Universe assets \<Rightarrow> take 50 (List.map_filter (\<lambda>asset. asset) assets))"

text \<open>\<^verbatim>\<open>coins[i:i+batch_size] for i in range(0, len(coins), batch_size)\<close>.\<close>

function batches :: "nat \<Rightarrow> 'a list \<Rightarrow> 'a list list" where
  "batches n xs = (if n = 0 \<or> xs = [] then [] else take n xs # batches n (drop n xs))"
  by pat_completeness auto
termination
  by (relation "measure (\<lambda>(n, xs). length xs)") auto

declare batches.simps [simp del]

text \<open>
  One call of a batch: the coin, the clock it reads and the answer it gets.
  \<^verbatim>\<open>asyncio.gather\<close> runs the calls of a batch in the order of the batch, each to its end
  (none of them awaits), and returns their results in that order.
\<close>

type_synonym call = "string \<times> rat \<times> response"

fun gather :: "bot \<Rightarrow> call list \<Rightarrow> liquidation list list \<times> bot" where
  "gather b [] = ([], b)"
| "gather b ((coin, current_time, resp) # rest) =
     (let r = analyze_coin_liquidations b coin current_time resp;
          rs = gather (snd r) rest
      in (fst r # fst rs, snd rs))"

text \<open>
  The sink: one entry for each call of \<^verbatim>\<open>send_liquidation_alert\<close>, the liquidation it
  is called with and the text it hands to Telegram (if it gets that far).
\<close>

type_synonym sink_log = "(liquidation \<times> string option) list"

definition dispatch :: "bot \<Rightarrow> liquidation list list \<Rightarrow> sink_log \<times> bot" where
  "dispatch b results =
     (map (\<lambda>l. (l, send_liquidation_alert l)) (concat results),
      b\<lparr>liquidations_count := liquidations_count b + length (concat results)\<rparr>)"

definition process_batch :: "bot \<Rightarrow> call list \<Rightarrow> sink_log \<times> bot" where
  "process_batch b batch =
     (let g = gather b batch in dispatch (snd g) (fst g))"

fun run_batches :: "bot \<Rightarrow> call list list \<Rightarrow> sink_log \<times> bot" where
  "run_batches b [] = ([], b)"
| "run_batches b (batch # rest) =
     (let r = process_batch b batch;
          rs = run_batches (snd r) rest
      in (fst r @ fst rs, snd rs))"

text \<open>
  One iteration of the \<^verbatim>\<open>while self.running\<close> loop of \<^verbatim>\<open>monitor_liquidations\<close>.
  Its input is the answer to the \<^verbatim>\<open>meta\<close> request and, for the \<open>i\<close>-th coin of the
  list, the clock and the answer of its \<^verbatim>\<open>recentTrades\<close> request.
\<close>

type_synonym cycle = "meta_response \<times> (nat \<Rightarrow> rat \<times> response)"

definition scan :: "bot \<Rightarrow> cycle \<Rightarrow> sink_log \<times> bot" where
  "scan b c =
     (let coins = get_all_coins (fst c);
          calls = zip coins (map (snd c) [0..<length coins])
      in run_batches b (batches 10 calls))"

text \<open>The loop, over the inputs of its iterations up to any moment of the run.\<close>

fun monitor_liquidations :: "bot \<Rightarrow> cycle list \<Rightarrow> sink_log \<times> bot" where
  "monitor_liquidations b [] = ([], b)"
| "monitor_liquidations b (c # cs) =
     (let r = scan b c;
          rs = monitor_liquidations (snd r) cs
      in (fst r @ fst rs, snd rs))"

section \<open>\<^verbatim>\<open>bot_railway.py\<close>\<close>








section \<open>\<^verbatim>\<open>bot_railway_futures.py\<close>\<close>




text \<open>The token cache of \<^verbatim>\<open>HyperliquidFuturesBot\<close>.\<close>

record futures_bot =
  all_tokens :: "string set"
  last_token_update :: rat

definition init_futures_bot :: futures_bot where
  "init_futures_bot = \<lparr>all_tokens = {}, last_token_update = 0\<rparr>"

definition get_all_tradable_assets :: "meta_response \<Rightarrow> string list" where
  "get_all_tradable_assets resp =
     (case resp of
        MetaError \<Rightarrow> []
      | NoUniverse \<Rightarrow> []
      | Universe assets \<Rightarrow> List.map_filter (\<lambda>asset. asset) assets)"

text \<open>
  \<^verbatim>\<open>get_recent_trades_all_tokens\<close>. \<open>current_time\<close> is \<^verbatim>\<open>time.time()\<close>;
  \<open>resp1\<close> answers the request of the hourly update and \<open>resp2\<close> the request made
  when the cache is empty (each is read only if its request is made). The result is
  \<^verbatim>\<open>list(self.all_tokens)\<close>, whose order Python does not fix: the model returns the
  set of its elements. With names that are strings no statement of the body raises,
  so the \<^verbatim>\<open>except\<close> of the function, which returns \<^verbatim>\<open>['BTC', 'ETH', 'SOL']\<close>, is
  not entered: \<^verbatim>\<open>get_all_tradable_assets\<close> catches its own exceptions and returns
  the empty list.
\<close>

definition get_recent_trades_all_tokens ::
  "futures_bot \<Rightarrow> rat \<Rightarrow> meta_response \<Rightarrow> meta_response \<Rightarrow> string set \<times> futures_bot"
where
  "get_recent_trades_all_tokens b current_time resp1 resp2 =
     (let b1 =
            (if 3600 < current_time - last_token_update b
             then (let new_tokens = get_all_tradable_assets resp1
                   in if new_tokens \<noteq> []
                      then b\<lparr>all_tokens := all_tokens b \<union> set new_tokens,
                             last_token_update := current_time\<rparr>
                      else b)
             else b);
          b2 =
            (if all_tokens b1 = {}
             then b1\<lparr>all_tokens := all_tokens b1 \<union> set (get_all_tradable_assets resp2)\<rparr>
             else b1)
      in (all_tokens b2, b2))"

text \<open>The calls of a run: each with its clock and the two answers.\<close>

fun run_tokens :: "futures_bot \<Rightarrow> (rat \<times> meta_response \<times> meta_response) list \<Rightarrow> futures_bot" where
  "run_tokens b [] = b"
| "run_tokens b ((current_time, resp1, resp2) # rest) =
     run_tokens (snd (get_recent_trades_all_tokens b current_time resp1 resp2)) rest"

section \<open>Case-insensitive comparison, as the specification words it\<close>



section \<open>Evaluation and rounding lemmas\<close>

lemma floor_rat_numeral: "\<lfloor>(numeral a :: rat) / numeral b\<rfloor> = numeral a div numeral b"
  using floor_divide_of_int_eq [of "numeral a" "numeral b", where ?'a = rat] by simp

lemma replicate_numeral: "replicate (numeral k) x = x # replicate (pred_numeral k) x"
  by (simp add: numeral_eq_Suc)

lemmas py_eval = format_f_def round_half_even_def str_nat.simps digit_char_def zero_pad_def
  char_of_def Let_def bit_Suc_0_iff floor_rat_numeral replicate_numeral group_thousands_def
  lower_def lower_char_def upper_def upper_char_def







section \<open>Letter case\<close>





section \<open>The amount and the direction of an alert\<close>




lemma amount_str_examples:
  "amount_str 1500000 = ''$1.5M''" "amount_str 45000 = ''$45K''" "amount_str 900 = ''$900''"
  "amount_str 180000 = ''$180K''"
  by (simp_all add: amount_str_def py_eval)





subsection \<open>The direction label\<close>






section \<open>The classification loop of \<^verbatim>\<open>bot_final_liquidations.py\<close>\<close>

lemma analyze_trade_SomeD:
  assumes "analyze_trade m coin k S t = Some l"
  shows "get_or (t_hash t) '''' = Some (l_hash l)" and "l_hash l \<notin> S"
    and "of_int m \<le> l_value_usd l" and "l_coin l = coin"
  using assms unfolding analyze_trade_def Let_def
  by (auto split: option.splits if_splits)

lemma analyze_trade_seen:
  "get_or (t_hash t) '''' = Some h \<Longrightarrow> h \<in> S \<Longrightarrow> analyze_trade m coin k S t = None"
  unfolding analyze_trade_def by simp


lemma analyze_trade_bad:
  "t_hash t = Bad \<or> t_time t = Bad \<or> t_sz t = Bad \<or> t_px t = Bad \<or> t_users t = Bad
     \<Longrightarrow> analyze_trade m coin k S t = None"
  unfolding analyze_trade_def Let_def get_or_def
  by (auto split: option.splits json_field.splits)

lemma analyze_trade_override:
  assumes "get_or (t_hash t) '''' = Some h" and "h \<notin> S"
    and "get_or (t_time t) 0 = Some tm" and "k \<le> tm"
    and "get_or (t_sz t) 0 = Some sz" and "get_or (t_px t) 0 = Some px"
    and "of_int m \<le> sz * px"
    and "get_or (t_users t) [] = Some users"
    and "2 \<le> length users \<or> 100000 \<le> sz * px \<or> size_tier coin sz"
  shows "analyze_trade m coin k S t =
     Some \<lparr>l_coin = coin, l_sz = sz, l_px = px,
           l_side = (case t_side t of Missing \<Rightarrow> Some '''' | Bad \<Rightarrow> None | Val s \<Rightarrow> Some s),
           l_value_usd = sz * px, l_time = tm, l_hash = h, l_users = users\<rparr>"
  using assms unfolding analyze_trade_def Let_def
  by (auto simp: not_less)

lemma analyze_loop_append:
  "analyze_loop m c k (xs @ ys) st = analyze_loop m c k ys (analyze_loop m c k xs st)"
  by (induction xs arbitrary: st) (auto split: option.splits)

lemma analyze_loop_acc:
  "analyze_loop m c k ts st =
     (fst st @ fst (analyze_loop m c k ts ([], snd st)), snd (analyze_loop m c k ts ([], snd st)))"
proof (induction ts arbitrary: st)
  case Nil
  show ?case by simp
next
  case (Cons t ts)
  show ?case
  proof (cases "analyze_trade m c k (snd st) t")
    case None
    then show ?thesis using Cons.IH [of st] by simp
  next
    case (Some l)
    have "analyze_loop m c k (t # ts) st
            = analyze_loop m c k ts (fst st @ [l], insert (l_hash l) (snd st))"
      using Some by simp
    also have "\<dots> = ((fst st @ [l]) @ fst (analyze_loop m c k ts ([], insert (l_hash l) (snd st))),
                      snd (analyze_loop m c k ts ([], insert (l_hash l) (snd st))))"
      using Cons.IH [of "(fst st @ [l], insert (l_hash l) (snd st))"] by simp
    finally have a: "analyze_loop m c k (t # ts) st
            = (fst st @ l # fst (analyze_loop m c k ts ([], insert (l_hash l) (snd st))),
               snd (analyze_loop m c k ts ([], insert (l_hash l) (snd st))))"
      by simp
    have "analyze_loop m c k (t # ts) ([], snd st)
            = analyze_loop m c k ts ([l], insert (l_hash l) (snd st))"
      using Some by simp
    also have "\<dots> = ([l] @ fst (analyze_loop m c k ts ([], insert (l_hash l) (snd st))),
                      snd (analyze_loop m c k ts ([], insert (l_hash l) (snd st))))"
      using Cons.IH [of "([l], insert (l_hash l) (snd st))"] by simp
    finally have b: "analyze_loop m c k (t # ts) ([], snd st)
            = (l # fst (analyze_loop m c k ts ([], insert (l_hash l) (snd st))),
               snd (analyze_loop m c k ts ([], insert (l_hash l) (snd st))))"
      by simp
    show ?thesis
      unfolding a b by simp
  qed
qed

lemma analyze_loop_Cons_Some:
  assumes "analyze_trade m c k S t = Some l"
  shows "analyze_loop m c k (t # ts) ([], S) =
           (l # fst (analyze_loop m c k ts ([], insert (l_hash l) S)),
            snd (analyze_loop m c k ts ([], insert (l_hash l) S)))"
proof -
  have "analyze_loop m c k (t # ts) ([], S) = analyze_loop m c k ts ([l], insert (l_hash l) S)"
    using assms by simp
  then show ?thesis
    using analyze_loop_acc [of m c k ts "([l], insert (l_hash l) S)"] by simp
qed

lemma analyze_loop_inv:
  "snd (analyze_loop m c k ts ([], S)) = S \<union> l_hash ` set (fst (analyze_loop m c k ts ([], S)))
   \<and> distinct (map l_hash (fst (analyze_loop m c k ts ([], S))))
   \<and> l_hash ` set (fst (analyze_loop m c k ts ([], S))) \<inter> S = {}
   \<and> (\<forall>l \<in> set (fst (analyze_loop m c k ts ([], S))). of_int m \<le> l_value_usd l)"
proof (induction ts arbitrary: S)
  case Nil
  show ?case by simp
next
  case (Cons t ts)
  show ?case
  proof (cases "analyze_trade m c k S t")
    case None
    then show ?thesis using Cons.IH [of S] by simp
  next
    case (Some l)
    note d = analyze_trade_SomeD [OF Some]
    note ih = Cons.IH [of "insert (l_hash l) S"]
    show ?thesis
      unfolding analyze_loop_Cons_Some [OF Some]
      using ih d(2,3) by auto
  qed
qed

lemma analyze_loop_mono: "snd st \<subseteq> snd (analyze_loop m c k ts st)"
  using analyze_loop_acc [of m c k ts st] analyze_loop_inv [of m c k ts "snd st"] by auto

lemma analyze_loop_skip:
  assumes "\<And>S'. snd st \<subseteq> S' \<Longrightarrow> analyze_trade m c k S' t = None"
  shows "analyze_loop m c k (pre @ t # post) st = analyze_loop m c k (pre @ post) st"
proof -
  have "analyze_trade m c k (snd (analyze_loop m c k pre st)) t = None"
    by (rule assms) (rule analyze_loop_mono)
  then show ?thesis
    by (simp add: analyze_loop_append)
qed

lemma analyze_coin_liquidations_Trades:
  "analyze_coin_liquidations b coin now (Trades ts) =
     (fst (analyze_loop (min_liquidation_value b) coin (now - 300000) ts ([], processed_hashes b)),
      b\<lparr>processed_hashes :=
          snd (analyze_loop (min_liquidation_value b) coin (now - 300000) ts
                 ([], processed_hashes b))\<rparr>)"
  by (cases ts) (simp_all add: analyze_coin_liquidations_def Let_def)

lemma analyze_coin_liquidations_skip:
  assumes "\<And>S'. processed_hashes b \<subseteq> S'
             \<Longrightarrow> analyze_trade (min_liquidation_value b) coin (now - 300000) S' t = None"
  shows "analyze_coin_liquidations b coin now (Trades (pre @ t # post)) =
         analyze_coin_liquidations b coin now (Trades (pre @ post))"
  unfolding analyze_coin_liquidations_Trades
  using analyze_loop_skip [of "([], processed_hashes b)" "min_liquidation_value b" coin
      "now - 300000" t pre post] assms
  by simp

lemma analyze_coin_liquidations_inv:
  "processed_hashes (snd (analyze_coin_liquidations b coin now resp)) =
     processed_hashes b \<union> l_hash ` set (fst (analyze_coin_liquidations b coin now resp))
   \<and> distinct (map l_hash (fst (analyze_coin_liquidations b coin now resp)))
   \<and> l_hash ` set (fst (analyze_coin_liquidations b coin now resp)) \<inter> processed_hashes b = {}
   \<and> (\<forall>l \<in> set (fst (analyze_coin_liquidations b coin now resp)).
        of_int (min_liquidation_value b) \<le> l_value_usd l)
   \<and> min_liquidation_value (snd (analyze_coin_liquidations b coin now resp))
       = min_liquidation_value b"
proof (cases resp)
  case FetchError
  then show ?thesis by (simp add: analyze_coin_liquidations_def)
next
  case (Trades ts)
  show ?thesis
    unfolding Trades analyze_coin_liquidations_Trades
    using analyze_loop_inv [of "min_liquidation_value b" coin "now - 300000" ts
        "processed_hashes b"]
    by simp
qed

section \<open>Classification: the floor, the override and the BTC scenario\<close>










text \<open>
  C3, as the code has it. A trade whose hash is not in \<^verbatim>\<open>processed_hashes\<close> when the
  loop reaches it (after the trades \<open>pre\<close> before it in the answer), that is recent, whose
  notional is at least the minimum and that has at least two users is appended to the
  liquidations, right after those of the trades before it, whether or not the size
  threshold of the coin is met.
\<close>

theorem users_override:
  assumes "get_or (t_hash t) '''' = Some h"
    and "h \<notin> processed_hashes (snd (analyze_coin_liquidations b coin now (Trades pre)))"
    and "get_or (t_time t) 0 = Some tm" and "now - 300000 \<le> tm"
    and "get_or (t_sz t) 0 = Some sz" and "get_or (t_px t) 0 = Some px"
    and "of_int (min_liquidation_value b) \<le> sz * px"
    and "get_or (t_users t) [] = Some users" and "2 \<le> length users"
  shows "\<exists>rest. fst (analyze_coin_liquidations b coin now (Trades (pre @ t # post))) =
      fst (analyze_coin_liquidations b coin now (Trades pre))
      @ \<lparr>l_coin = coin, l_sz = sz, l_px = px,
          l_side = (case t_side t of Missing \<Rightarrow> Some '''' | Bad \<Rightarrow> None | Val s \<Rightarrow> Some s),
          l_value_usd = sz * px, l_time = tm, l_hash = h, l_users = users\<rparr> # rest"
proof -
  let ?m = "min_liquidation_value b" and ?k = "now - 300000"
  let ?st = "analyze_loop ?m coin ?k pre ([], processed_hashes b)"
  let ?l = "\<lparr>l_coin = coin, l_sz = sz, l_px = px,
          l_side = (case t_side t of Missing \<Rightarrow> Some '''' | Bad \<Rightarrow> None | Val s \<Rightarrow> Some s),
          l_value_usd = sz * px, l_time = tm, l_hash = h, l_users = users\<rparr>"
  have fresh: "h \<notin> snd ?st"
    using assms(2) unfolding analyze_coin_liquidations_Trades by simp
  have one: "analyze_trade ?m coin ?k (snd ?st) t = Some ?l"
    by (rule analyze_trade_override) (use assms fresh in simp_all)
  have "analyze_loop ?m coin ?k (pre @ t # post) ([], processed_hashes b)
          = analyze_loop ?m coin ?k post (fst ?st @ [?l], insert h (snd ?st))"
    using one by (simp add: analyze_loop_append)
  then have "fst (analyze_loop ?m coin ?k (pre @ t # post) ([], processed_hashes b))
          = (fst ?st @ [?l]) @ fst (analyze_loop ?m coin ?k post ([], insert h (snd ?st)))"
    using analyze_loop_acc [of ?m coin ?k post "(fst ?st @ [?l], insert h (snd ?st))"] by simp
  then show ?thesis
    unfolding analyze_coin_liquidations_Trades by simp
qed

text \<open>A BTC trade of size 1 (below the 2 BTC threshold) at 60000 with two users.\<close>

theorem users_override_witness:
  "\<exists>rest. fst (analyze_coin_liquidations (init_bot 50000) ''BTC'' 1700000000000
      (Trades [\<lparr>t_time = Val 1700000000000, t_hash = Val ''0xabc'', t_sz = Val 1,
                t_px = Val 60000, t_side = Val ''B'', t_users = Val [''0x1'', ''0x2'']\<rparr>]))
     = \<lparr>l_coin = ''BTC'', l_sz = 1, l_px = 60000, l_side = Some ''B'', l_value_usd = 60000,
        l_time = 1700000000000, l_hash = ''0xabc'', l_users = [''0x1'', ''0x2'']\<rparr> # rest"
  using users_override [of
      "\<lparr>t_time = Val 1700000000000, t_hash = Val ''0xabc'', t_sz = Val 1,
        t_px = Val 60000, t_side = Val ''B'', t_users = Val [''0x1'', ''0x2'']\<rparr>"
      "''0xabc''" "init_bot 50000" "''BTC''" 1700000000000 "[]" 1700000000000 1 60000
      "[''0x1'', ''0x2'']" "[]"]
  by (simp add: get_or_def init_bot_def analyze_coin_liquidations_def)

text \<open>
  C3 as stated fails when the hash of the trade is already in \<^verbatim>\<open>processed_hashes\<close>:
  the same trade, recent, above the minimum and with two users, yields no liquidation.
\<close>

theorem users_override_counterexample:
  "analyze_coin_liquidations
     \<lparr>min_liquidation_value = 50000, liquidations_count = 1, processed_hashes = {''0xabc''}\<rparr>
     ''BTC'' 1700000000000
     (Trades [\<lparr>t_time = Val 1700000000000, t_hash = Val ''0xabc'', t_sz = Val 1,
               t_px = Val 60000, t_side = Val ''B'', t_users = Val [''0x1'', ''0x2'']\<rparr>])
   = ([], \<lparr>min_liquidation_value = 50000, liquidations_count = 1,
           processed_hashes = {''0xabc''}\<rparr>)"
  by (simp add: analyze_coin_liquidations_def analyze_trade_def get_or_def)

text \<open>
  C5. With a minimum of 50000, a recent BTC trade of size 3 at 60000, side Sell, no
  users, whose hash is new, is classified (3 is at least the threshold of 2 BTC): the
  liquidation has side Sell and notional 180000, and its alert reads SHORT, \<open>$180K\<close> and
  \<open>@$60000.0000\<close>.
\<close>

theorem btc_scenario:
  assumes "t_hash t = Val h" and "h \<notin> processed_hashes b"
    and "t_time t = Val tm" and "now - 300000 \<le> tm"
    and "t_sz t = Val 3" and "t_px t = Val 60000" and "t_side t = Val ''Sell''"
    and "t_users t = Val []" and "min_liquidation_value b = 50000"
  shows "analyze_coin_liquidations b ''BTC'' now (Trades [t]) =
           ([\<lparr>l_coin = ''BTC'', l_sz = 3, l_px = 60000, l_side = Some ''Sell'',
              l_value_usd = 180000, l_time = tm, l_hash = h, l_users = []\<rparr>],
            b\<lparr>processed_hashes := insert h (processed_hashes b)\<rparr>)
         \<and> size_tier ''BTC'' 3
         \<and> send_liquidation_alert
             \<lparr>l_coin = ''BTC'', l_sz = 3, l_px = 60000, l_side = Some ''Sell'',
              l_value_usd = 180000, l_time = tm, l_hash = h, l_users = []\<rparr>
           = Some (siren @ '' '' @ green_circle @ '' #BTC SHORT $180K @$60000.0000'')"
proof (intro conjI)
  have "analyze_trade 50000 ''BTC'' (now - 300000) (processed_hashes b) t =
          Some \<lparr>l_coin = ''BTC'', l_sz = 3, l_px = 60000, l_side = Some ''Sell'',
              l_value_usd = 180000, l_time = tm, l_hash = h, l_users = []\<rparr>"
    using assms by (simp add: analyze_trade_def get_or_def size_tier_def)
  then show "analyze_coin_liquidations b ''BTC'' now (Trades [t]) =
           ([\<lparr>l_coin = ''BTC'', l_sz = 3, l_px = 60000, l_side = Some ''Sell'',
              l_value_usd = 180000, l_time = tm, l_hash = h, l_users = []\<rparr>],
            b\<lparr>processed_hashes := insert h (processed_hashes b)\<rparr>)"
    using assms(9) by (simp add: analyze_coin_liquidations_def)
next
  show "size_tier ''BTC'' 3"
    by (simp add: size_tier_def)
next
  have "fst (direction_final ''Sell'') = green_circle" "snd (direction_final ''Sell'') = ''SHORT''"
    by (simp_all add: direction_final_def lower_def lower_char_def char_of_def bit_Suc_0_iff)
  moreover have "format_f False 4 60000 = ''60000.0000''"
    by (simp add: py_eval)
  ultimately show "send_liquidation_alert
             \<lparr>l_coin = ''BTC'', l_sz = 3, l_px = 60000, l_side = Some ''Sell'',
              l_value_usd = 180000, l_time = tm, l_hash = h, l_users = []\<rparr>
           = Some (siren @ '' '' @ green_circle @ '' #BTC SHORT $180K @$60000.0000'')"
    by (simp add: send_liquidation_alert_def amount_str_examples)
qed

theorem btc_scenario_witness:
  "analyze_coin_liquidations (init_bot 50000) ''BTC'' 1700000000000
     (Trades [\<lparr>t_time = Val 1699999990000, t_hash = Val ''0xbeef'', t_sz = Val 3,
               t_px = Val 60000, t_side = Val ''Sell'', t_users = Val []\<rparr>]) =
     ([\<lparr>l_coin = ''BTC'', l_sz = 3, l_px = 60000, l_side = Some ''Sell'',
        l_value_usd = 180000, l_time = 1699999990000, l_hash = ''0xbeef'', l_users = []\<rparr>],
      \<lparr>min_liquidation_value = 50000, liquidations_count = 0, processed_hashes = {''0xbeef''}\<rparr>)
   \<and> send_liquidation_alert
       \<lparr>l_coin = ''BTC'', l_sz = 3, l_px = 60000, l_side = Some ''Sell'',
        l_value_usd = 180000, l_time = 1699999990000, l_hash = ''0xbeef'', l_users = []\<rparr>
     = Some (siren @ '' '' @ green_circle @ '' #BTC SHORT $180K @$60000.0000'')"
  using btc_scenario [of
      "\<lparr>t_time = Val 1699999990000, t_hash = Val ''0xbeef'', t_sz = Val 3,
        t_px = Val 60000, t_side = Val ''Sell'', t_users = Val []\<rparr>"
      "''0xbeef''" "init_bot 50000" 1699999990000 1700000000000]
  by (simp add: init_bot_def)

section \<open>The scan of \<^verbatim>\<open>bot_final_liquidations.py\<close>\<close>

lemma analyze_coin_liquidations_count:
  "analyze_coin_liquidations (b\<lparr>liquidations_count := n\<rparr>) coin now resp =
     (fst (analyze_coin_liquidations b coin now resp),
      (snd (analyze_coin_liquidations b coin now resp))\<lparr>liquidations_count := n\<rparr>)"
  by (cases resp) (simp_all add: analyze_coin_liquidations_def Let_def)

lemma analyze_coin_liquidations_count_same:
  "liquidations_count (snd (analyze_coin_liquidations b coin now resp)) = liquidations_count b"
  by (cases resp) (simp_all add: analyze_coin_liquidations_def Let_def)

lemma gather_count:
  "gather (b\<lparr>liquidations_count := n\<rparr>) calls =
     (fst (gather b calls), (snd (gather b calls))\<lparr>liquidations_count := n\<rparr>)"
proof (induction calls arbitrary: b)
  case Nil
  show ?case by simp
next
  case (Cons call calls)
  obtain coin now resp where call: "call = (coin, now, resp)"
    by (cases call)
  show ?case
    unfolding call
    by (simp add: Let_def analyze_coin_liquidations_count Cons.IH)
qed

lemma gather_count_same: "liquidations_count (snd (gather b calls)) = liquidations_count b"
proof (induction calls arbitrary: b)
  case Nil
  show ?case by simp
next
  case (Cons call calls)
  obtain coin now resp where call: "call = (coin, now, resp)"
    by (cases call)
  show ?case
    unfolding call
    by (simp add: Let_def analyze_coin_liquidations_count_same Cons.IH)
qed

lemma gather_append:
  "gather b (xs @ ys) =
     (fst (gather b xs) @ fst (gather (snd (gather b xs)) ys),
      snd (gather (snd (gather b xs)) ys))"
proof (induction xs arbitrary: b)
  case Nil
  show ?case by simp
next
  case (Cons call calls)
  obtain coin now resp where call: "call = (coin, now, resp)"
    by (cases call)
  show ?case
    unfolding call
    by (simp add: Let_def Cons.IH)
qed

lemma gather_inv:
  "processed_hashes (snd (gather b calls)) =
     processed_hashes b \<union> l_hash ` set (concat (fst (gather b calls)))
   \<and> distinct (map l_hash (concat (fst (gather b calls))))
   \<and> l_hash ` set (concat (fst (gather b calls))) \<inter> processed_hashes b = {}"
proof (induction calls arbitrary: b)
  case Nil
  show ?case by simp
next
  case (Cons call calls)
  obtain coin now resp where call: "call = (coin, now, resp)"
    by (cases call)
  let ?r = "analyze_coin_liquidations b coin now resp"
  let ?rs = "gather (snd ?r) calls"
  have g: "gather b (call # calls) = (fst ?r # fst ?rs, snd ?rs)"
    unfolding call by (simp add: Let_def)
  have a: "processed_hashes (snd ?r) = processed_hashes b \<union> l_hash ` set (fst ?r)"
    and b: "distinct (map l_hash (fst ?r))"
    and c: "l_hash ` set (fst ?r) \<inter> processed_hashes b = {}"
    using analyze_coin_liquidations_inv [of b coin now resp] by blast+
  have a': "processed_hashes (snd ?rs) =
              processed_hashes (snd ?r) \<union> l_hash ` set (concat (fst ?rs))"
    and b': "distinct (map l_hash (concat (fst ?rs)))"
    and c': "l_hash ` set (concat (fst ?rs)) \<inter> processed_hashes (snd ?r) = {}"
    using Cons.IH [of "snd ?r"] by blast+
  have d: "l_hash ` set (fst ?r) \<inter> l_hash ` set (concat (fst ?rs)) = {}"
    using a c' by blast
  have u: "l_hash ` set (fst ?r @ concat (fst ?rs)) =
           l_hash ` set (fst ?r) \<union> l_hash ` set (concat (fst ?rs))"
    by (simp add: image_Un)
  have "processed_hashes (snd ?rs) =
          processed_hashes b \<union> l_hash ` set (fst ?r @ concat (fst ?rs))"
    unfolding u using a a' by blast
  moreover have "distinct (map l_hash (fst ?r @ concat (fst ?rs)))"
    using b b' d by simp
  moreover have "l_hash ` set (fst ?r @ concat (fst ?rs)) \<inter> processed_hashes b = {}"
    unfolding u using c c' a by blast
  ultimately show ?case
    unfolding g by simp
qed

lemma process_batch_append:
  "process_batch b (xs @ ys) =
     (fst (process_batch b xs) @ fst (process_batch (snd (process_batch b xs)) ys),
      snd (process_batch (snd (process_batch b xs)) ys))"
  unfolding process_batch_def dispatch_def Let_def
  by (simp add: gather_append gather_count gather_count_same)

lemma process_batch_Nil: "process_batch b [] = ([], b)"
  by (simp add: process_batch_def dispatch_def)

lemma run_batches_batches:
  "0 < n \<Longrightarrow> run_batches b (batches n calls) = process_batch b calls"
proof (induction n calls arbitrary: b rule: batches.induct)
  case (1 n xs)
  show ?case
  proof (cases "xs = []")
    case True
    then show ?thesis
      by (simp add: batches.simps process_batch_Nil)
  next
    case False
    have ih: "\<And>b. run_batches b (batches n (drop n xs)) = process_batch b (drop n xs)"
      using "1.IH" "1.prems" False by simp
    have "batches n xs = take n xs # batches n (drop n xs)"
      using False "1.prems" by (subst batches.simps) simp
    then have "run_batches b (batches n xs) =
        (fst (process_batch b (take n xs))
           @ fst (process_batch (snd (process_batch b (take n xs))) (drop n xs)),
         snd (process_batch (snd (process_batch b (take n xs))) (drop n xs)))"
      by (simp add: Let_def ih)
    also have "\<dots> = process_batch b (take n xs @ drop n xs)"
      by (rule process_batch_append [symmetric])
    finally show ?thesis by simp
  qed
qed

lemma scan_process_batch:
  "scan b c = process_batch b
     (zip (get_all_coins (fst c)) (map (snd c) [0..<length (get_all_coins (fst c))]))"
  by (simp add: scan_def Let_def run_batches_batches)

lemma process_batch_inv:
  "processed_hashes (snd (process_batch b calls)) =
     processed_hashes b \<union> set (map (\<lambda>e. l_hash (fst e)) (fst (process_batch b calls)))
   \<and> distinct (map (\<lambda>e. l_hash (fst e)) (fst (process_batch b calls)))
   \<and> set (map (\<lambda>e. l_hash (fst e)) (fst (process_batch b calls))) \<inter> processed_hashes b = {}"
proof -
  have m: "map (\<lambda>e. l_hash (fst e)) (fst (process_batch b calls)) =
           map l_hash (concat (fst (gather b calls)))"
    by (simp add: process_batch_def dispatch_def Let_def comp_def)
  have p: "processed_hashes (snd (process_batch b calls)) = processed_hashes (snd (gather b calls))"
    by (simp add: process_batch_def dispatch_def Let_def)
  show ?thesis
    unfolding m p using gather_inv [of b calls] by simp
qed

lemma monitor_inv:
  "processed_hashes (snd (monitor_liquidations b cycles)) =
     processed_hashes b \<union> set (map (\<lambda>e. l_hash (fst e)) (fst (monitor_liquidations b cycles)))
   \<and> distinct (map (\<lambda>e. l_hash (fst e)) (fst (monitor_liquidations b cycles)))
   \<and> set (map (\<lambda>e. l_hash (fst e)) (fst (monitor_liquidations b cycles)))
       \<inter> processed_hashes b = {}"
proof (induction cycles arbitrary: b)
  case Nil
  show ?case by simp
next
  case (Cons c cs)
  let ?r = "scan b c"
  let ?rs = "monitor_liquidations (snd ?r) cs"
  let ?H = "\<lambda>log. set (map (\<lambda>e. l_hash (fst e)) log)"
  have g: "monitor_liquidations b (c # cs) = (fst ?r @ fst ?rs, snd ?rs)"
    by (simp add: Let_def)
  have a: "processed_hashes (snd ?r) = processed_hashes b \<union> ?H (fst ?r)"
    and b: "distinct (map (\<lambda>e. l_hash (fst e)) (fst ?r))"
    and c: "?H (fst ?r) \<inter> processed_hashes b = {}"
    unfolding scan_process_batch using process_batch_inv by blast+
  have a': "processed_hashes (snd ?rs) = processed_hashes (snd ?r) \<union> ?H (fst ?rs)"
    and b': "distinct (map (\<lambda>e. l_hash (fst e)) (fst ?rs))"
    and c': "?H (fst ?rs) \<inter> processed_hashes (snd ?r) = {}"
    using Cons.IH [of "snd ?r"] by blast+
  have d: "?H (fst ?r) \<inter> ?H (fst ?rs) = {}"
    using a c' by blast
  have u: "?H (fst ?r @ fst ?rs) = ?H (fst ?r) \<union> ?H (fst ?rs)"
    by simp
  have "processed_hashes (snd ?rs) = processed_hashes b \<union> ?H (fst ?r @ fst ?rs)"
    unfolding u using a a' by blast
  moreover have "distinct (map (\<lambda>e. l_hash (fst e)) (fst ?r @ fst ?rs))"
    using b b' d by simp
  moreover have "?H (fst ?r @ fst ?rs) \<inter> processed_hashes b = {}"
    unfolding u using c c' a by blast
  ultimately show ?case
    unfolding g by simp
qed

lemma distinct_map_filter_le1:
  "distinct (map f xs) \<Longrightarrow> length (filter (\<lambda>x. f x = h) xs) \<le> 1"
proof (induction xs)
  case Nil
  show ?case by simp
next
  case (Cons x xs)
  show ?case
  proof (cases "f x = h")
    case True
    then have "h \<notin> f ` set xs"
      using Cons.prems by auto
    then have "filter (\<lambda>x. f x = h) xs = []"
      by (auto simp: filter_empty_conv)
    then show ?thesis using True by simp
  next
    case False
    then show ?thesis using Cons by simp
  qed
qed

lemma no_hash_no_entry:
  "h \<notin> set (map f xs) \<Longrightarrow> filter (\<lambda>x. f x = h) xs = []"
  by (auto simp: filter_empty_conv)

section \<open>Deduplication and isolation of failures\<close>

text \<open>
  C1. In any run of \<^verbatim>\<open>monitor_liquidations\<close>, from any state of the bot and over any
  number of scan cycles, \<^verbatim>\<open>send_liquidation_alert\<close> is called at most once for a given
  hash; it is never called for a hash that was in \<^verbatim>\<open>processed_hashes\<close> at the start; and
  every hash it is called for is in \<^verbatim>\<open>processed_hashes\<close> afterwards.
\<close>

theorem one_alert_per_hash:
  "length (filter (\<lambda>e. l_hash (fst e) = h) (fst (monitor_liquidations b cycles))) \<le> 1
   \<and> (if h \<in> processed_hashes b
      then filter (\<lambda>e. l_hash (fst e) = h) (fst (monitor_liquidations b cycles)) = []
      else True)
   \<and> processed_hashes (snd (monitor_liquidations b cycles)) =
       processed_hashes b \<union> set (map (\<lambda>e. l_hash (fst e)) (fst (monitor_liquidations b cycles)))"
proof (intro conjI)
  have d: "distinct (map (\<lambda>e. l_hash (fst e)) (fst (monitor_liquidations b cycles)))"
    using monitor_inv [of b cycles] by (rule conjunct1 [OF conjunct2])
  show "length (filter (\<lambda>e. l_hash (fst e) = h) (fst (monitor_liquidations b cycles))) \<le> 1"
    by (rule distinct_map_filter_le1 [OF d])
next
  have "h \<in> processed_hashes b \<Longrightarrow>
        h \<notin> set (map (\<lambda>e. l_hash (fst e)) (fst (monitor_liquidations b cycles)))"
    using monitor_inv [of b cycles] by blast
  then show "if h \<in> processed_hashes b
      then filter (\<lambda>e. l_hash (fst e) = h) (fst (monitor_liquidations b cycles)) = []
      else True"
    by (simp add: no_hash_no_entry)
next
  show "processed_hashes (snd (monitor_liquidations b cycles)) =
       processed_hashes b \<union> set (map (\<lambda>e. l_hash (fst e)) (fst (monitor_liquidations b cycles)))"
    using monitor_inv [of b cycles] by blast
qed

lemma example_coins: "get_all_coins (Universe [Some ''BTC'']) = [''BTC'']"
  by (simp add: get_all_coins_def List.map_filter_def)

lemma example_first:
  "analyze_coin_liquidations (init_bot 50000) ''BTC'' 1700000000000
     (Trades [\<lparr>t_time = Val 1699999990000, t_hash = Val ''0xbeef'', t_sz = Val 3,
               t_px = Val 60000, t_side = Val ''Sell'', t_users = Val []\<rparr>])
   = ([\<lparr>l_coin = ''BTC'', l_sz = 3, l_px = 60000, l_side = Some ''Sell'',
        l_value_usd = 180000, l_time = 1699999990000, l_hash = ''0xbeef'', l_users = []\<rparr>],
      \<lparr>min_liquidation_value = 50000, liquidations_count = 0,
       processed_hashes = {''0xbeef''}\<rparr>)"
  by (simp add: init_bot_def analyze_coin_liquidations_def analyze_trade_def
      get_or_def size_tier_def)

lemma example_second:
  "analyze_coin_liquidations
     \<lparr>min_liquidation_value = 50000, liquidations_count = n, processed_hashes = {''0xbeef''}\<rparr>
     ''BTC'' 1700000030000
     (Trades [\<lparr>t_time = Val 1699999990000, t_hash = Val ''0xbeef'', t_sz = Val 3,
               t_px = Val 60000, t_side = Val ''Sell'', t_users = Val []\<rparr>])
   = ([], \<lparr>min_liquidation_value = 50000, liquidations_count = n,
           processed_hashes = {''0xbeef''}\<rparr>)"
  by (simp add: analyze_coin_liquidations_def analyze_trade_def get_or_def)

lemma two_cycles_example:
  "map (\<lambda>e. l_hash (fst e))
     (fst (monitor_liquidations (init_bot 50000)
        [(Universe [Some ''BTC''],
          \<lambda>i. (1700000000000,
               Trades [\<lparr>t_time = Val 1699999990000, t_hash = Val ''0xbeef'', t_sz = Val 3,
                        t_px = Val 60000, t_side = Val ''Sell'', t_users = Val []\<rparr>])),
         (Universe [Some ''BTC''],
          \<lambda>i. (1700000030000,
               Trades [\<lparr>t_time = Val 1699999990000, t_hash = Val ''0xbeef'', t_sz = Val 3,
                        t_px = Val 60000, t_side = Val ''Sell'', t_users = Val []\<rparr>]))]))
   = [''0xbeef'']"
  by (simp add: scan_process_batch example_coins process_batch_def dispatch_def
      example_first example_second Let_def)

text \<open>
  The scenario of the specification: the same trade in the answers of two consecutive scan
  cycles gives exactly one alert.
\<close>

theorem one_alert_per_hash_witness:
  "length (filter (\<lambda>e. l_hash (fst e) = ''0xbeef'')
     (fst (monitor_liquidations (init_bot 50000)
        [(Universe [Some ''BTC''],
          \<lambda>i. (1700000000000,
               Trades [\<lparr>t_time = Val 1699999990000, t_hash = Val ''0xbeef'', t_sz = Val 3,
                        t_px = Val 60000, t_side = Val ''Sell'', t_users = Val []\<rparr>])),
         (Universe [Some ''BTC''],
          \<lambda>i. (1700000030000,
               Trades [\<lparr>t_time = Val 1699999990000, t_hash = Val ''0xbeef'', t_sz = Val 3,
                        t_px = Val 60000, t_side = Val ''Sell'', t_users = Val []\<rparr>]))]))) \<le> 1
   \<and> map (\<lambda>e. l_hash (fst e))
     (fst (monitor_liquidations (init_bot 50000)
        [(Universe [Some ''BTC''],
          \<lambda>i. (1700000000000,
               Trades [\<lparr>t_time = Val 1699999990000, t_hash = Val ''0xbeef'', t_sz = Val 3,
                        t_px = Val 60000, t_side = Val ''Sell'', t_users = Val []\<rparr>])),
         (Universe [Some ''BTC''],
          \<lambda>i. (1700000030000,
               Trades [\<lparr>t_time = Val 1699999990000, t_hash = Val ''0xbeef'', t_sz = Val 3,
                        t_px = Val 60000, t_side = Val ''Sell'', t_users = Val []\<rparr>]))]))
     = [''0xbeef'']"
  using one_alert_per_hash [of "''0xbeef''" "init_bot 50000"
        "[(Universe [Some ''BTC''],
          \<lambda>i. (1700000000000,
               Trades [\<lparr>t_time = Val 1699999990000, t_hash = Val ''0xbeef'', t_sz = Val 3,
                        t_px = Val 60000, t_side = Val ''Sell'', t_users = Val []\<rparr>])),
         (Universe [Some ''BTC''],
          \<lambda>i. (1700000030000,
               Trades [\<lparr>t_time = Val 1699999990000, t_hash = Val ''0xbeef'', t_sz = Val 3,
                        t_px = Val 60000, t_side = Val ''Sell'', t_users = Val []\<rparr>]))]",
      THEN conjunct1]
    two_cycles_example
  by (rule conjI)

text \<open>
  C7. A call of \<^verbatim>\<open>analyze_coin_liquidations\<close> whose request fails returns no liquidation
  and changes nothing, as an empty answer does; the batch it belongs to, and the whole
  scan over the list of coins, send the same alerts and end in the same state as if the
  failing coin were not in the list: the coins before and after it are processed.
\<close>

theorem fetch_failure_isolated:
  "analyze_coin_liquidations b coin now FetchError = ([], b)
   \<and> analyze_coin_liquidations b coin now FetchError =
       analyze_coin_liquidations b coin now (Trades [])
   \<and> process_batch b (xs @ (coin, now, FetchError) # ys) = process_batch b (xs @ ys)
   \<and> run_batches b (batches 10 (xs @ (coin, now, FetchError) # ys)) =
       run_batches b (batches 10 (xs @ ys))"
proof -
  have e: "analyze_coin_liquidations b' coin now FetchError = ([], b')" for b'
    by (simp add: analyze_coin_liquidations_def)
  have g: "gather b' ((coin, now, FetchError) # ys) = ([] # fst (gather b' ys), snd (gather b' ys))"
    for b'
    by (simp add: e Let_def)
  have ga: "gather b (xs @ (coin, now, FetchError) # ys) =
      (fst (gather b xs) @ [] # fst (gather (snd (gather b xs)) ys),
       snd (gather (snd (gather b xs)) ys))"
    unfolding gather_append [of b xs "(coin, now, FetchError) # ys"] g by simp
  have p: "process_batch b (xs @ (coin, now, FetchError) # ys) = process_batch b (xs @ ys)"
    unfolding process_batch_def dispatch_def Let_def ga gather_append [of b xs ys]
    by simp
  show ?thesis
    by (simp add: e p run_batches_batches analyze_coin_liquidations_def)
qed

text \<open>A batch of two coins: the request for ETH fails, the BTC trade is still alerted on.\<close>

theorem fetch_failure_isolated_witness:
  "map (\<lambda>e. l_hash (fst e))
     (fst (process_batch (init_bot 50000)
        [(''ETH'', 1700000000000, FetchError),
         (''BTC'', 1700000000000,
          Trades [\<lparr>t_time = Val 1699999990000, t_hash = Val ''0xbeef'', t_sz = Val 3,
                   t_px = Val 60000, t_side = Val ''Sell'', t_users = Val []\<rparr>])]))
   = [''0xbeef'']"
  using fetch_failure_isolated [of "init_bot 50000" "''ETH''" 1700000000000 "[]"
      "[(''BTC'', 1700000000000,
          Trades [\<lparr>t_time = Val 1699999990000, t_hash = Val ''0xbeef'', t_sz = Val 3,
                   t_px = Val 60000, t_side = Val ''Sell'', t_users = Val []\<rparr>])]"]
  by (simp add: process_batch_def dispatch_def example_first Let_def)

text \<open>
  C10. The hash of a trade without the key \<^verbatim>\<open>hash\<close> is the empty string: when such a
  trade is classified, the empty string is what is added to \<^verbatim>\<open>processed_hashes\<close>. The
  set never loses an element, so the empty string stays in it over any further scan
  cycles. And once it is there, every trade without hash, of any coin, is skipped:
  \<^verbatim>\<open>analyze_coin_liquidations\<close> returns what it returns without this trade.
\<close>

theorem hashless_trades_skipped:
  "(t_hash t0 = Missing \<and> analyze_trade m0 coin0 k0 S0 t0 = Some l0 \<longrightarrow> l_hash l0 = '''')
   \<and> ('''' \<in> processed_hashes b \<longrightarrow>
        '''' \<in> processed_hashes (snd (monitor_liquidations b cycles)))
   \<and> ('''' \<in> processed_hashes b \<and> t_hash t = Missing \<longrightarrow>
        analyze_coin_liquidations b coin now (Trades (pre @ t # post)) =
        analyze_coin_liquidations b coin now (Trades (pre @ post)))"
proof (intro conjI impI)
  assume "t_hash t0 = Missing \<and> analyze_trade m0 coin0 k0 S0 t0 = Some l0"
  then show "l_hash l0 = ''''"
    using analyze_trade_SomeD(1) [of m0 coin0 k0 S0 t0 l0] by (simp add: get_or_def)
next
  assume "'''' \<in> processed_hashes b"
  then show "'''' \<in> processed_hashes (snd (monitor_liquidations b cycles))"
    using monitor_inv [of b cycles] by blast
next
  assume a: "'''' \<in> processed_hashes b \<and> t_hash t = Missing"
  show "analyze_coin_liquidations b coin now (Trades (pre @ t # post)) =
        analyze_coin_liquidations b coin now (Trades (pre @ post))"
  proof (rule analyze_coin_liquidations_skip)
    fix S' assume "processed_hashes b \<subseteq> S'"
    then have "'''' \<in> S'" using a by blast
    moreover have "get_or (t_hash t) '''' = Some ''''"
      using a by (simp add: get_or_def)
    ultimately show "analyze_trade (min_liquidation_value b) coin (now - 300000) S' t = None"
      by (rule analyze_trade_seen [rotated])
  qed
qed

text \<open>
  A BTC trade without hash is classified; afterwards an ETH trade without hash, recent,
  of 150000 USD and with two users, is skipped.
\<close>

theorem hashless_trades_skipped_witness:
  "snd (analyze_coin_liquidations (init_bot 50000) ''BTC'' 1700000000000
     (Trades [\<lparr>t_time = Val 1699999990000, t_hash = Missing, t_sz = Val 3,
               t_px = Val 60000, t_side = Val ''Sell'', t_users = Val []\<rparr>]))
     = \<lparr>min_liquidation_value = 50000, liquidations_count = 0, processed_hashes = {''''}\<rparr>
   \<and> analyze_coin_liquidations
       \<lparr>min_liquidation_value = 50000, liquidations_count = 0, processed_hashes = {''''}\<rparr>
       ''ETH'' 1700000030000
       (Trades [\<lparr>t_time = Val 1700000020000, t_hash = Missing, t_sz = Val 50,
                 t_px = Val 3000, t_side = Val ''B'', t_users = Val [''0x1'', ''0x2'']\<rparr>])
     = ([], \<lparr>min_liquidation_value = 50000, liquidations_count = 0,
             processed_hashes = {''''}\<rparr>)"
  using hashless_trades_skipped [of
      "\<lparr>t_time = Val 1699999990000, t_hash = Missing, t_sz = Val 3,
        t_px = Val 60000, t_side = Val ''Sell'', t_users = Val []\<rparr>"
      50000 "''BTC''" 1699999700000 "{}"
      "\<lparr>l_coin = ''BTC'', l_sz = 3, l_px = 60000, l_side = Some ''Sell'',
        l_value_usd = 180000, l_time = 1699999990000, l_hash = '''', l_users = []\<rparr>"
      "\<lparr>min_liquidation_value = 50000, liquidations_count = 0, processed_hashes = {''''}\<rparr>"
      "[]"
      "\<lparr>t_time = Val 1700000020000, t_hash = Missing, t_sz = Val 50,
        t_px = Val 3000, t_side = Val ''B'', t_users = Val [''0x1'', ''0x2'']\<rparr>"
      "''ETH''" 1700000030000 "[]" "[]"]
  by (simp add: init_bot_def analyze_coin_liquidations_def analyze_trade_def get_or_def
      size_tier_def)

section \<open>The token cache of \<^verbatim>\<open>bot_railway_futures.py\<close> and the list of coins\<close>

lemma tokens_step:
  "\<exists>new. all_tokens (snd (get_recent_trades_all_tokens b now r1 r2)) = all_tokens b \<union> set new
         \<and> (new = [] \<or> new = get_all_tradable_assets r1 \<or> new = get_all_tradable_assets r2)"
proof (cases "3600 < now - last_token_update b \<and> get_all_tradable_assets r1 \<noteq> []")
  case True
  then have "all_tokens (snd (get_recent_trades_all_tokens b now r1 r2)) =
             all_tokens b \<union> set (get_all_tradable_assets r1)"
    by (simp add: get_recent_trades_all_tokens_def Let_def)
  then show ?thesis by blast
next
  case False
  show ?thesis
  proof (cases "all_tokens b = {}")
    case True
    have "all_tokens (snd (get_recent_trades_all_tokens b now r1 r2)) =
          all_tokens b \<union> set (get_all_tradable_assets r2)"
      using False True by (auto simp: get_recent_trades_all_tokens_def Let_def)
    then show ?thesis by blast
  next
    case nonempty: False
    have "all_tokens (snd (get_recent_trades_all_tokens b now r1 r2)) = all_tokens b \<union> set []"
      using False nonempty by (auto simp: get_recent_trades_all_tokens_def Let_def)
    then show ?thesis by blast
  qed
qed

lemma tokens_step_mono:
  "all_tokens b \<subseteq> all_tokens (snd (get_recent_trades_all_tokens b now r1 r2))"
  using tokens_step [of b now r1 r2] by blast

lemma run_tokens_append: "run_tokens b (xs @ ys) = run_tokens (run_tokens b xs) ys"
  by (induction b xs rule: run_tokens.induct) simp_all

lemma run_tokens_mono: "all_tokens b \<subseteq> all_tokens (run_tokens b xs)"
proof (induction b xs rule: run_tokens.induct)
  case (1 b)
  show ?case by simp
next
  case (2 b now r1 r2 rest)
  have "all_tokens b \<subseteq> all_tokens (snd (get_recent_trades_all_tokens b now r1 r2))"
    by (rule tokens_step_mono)
  also have "\<dots> \<subseteq> all_tokens (run_tokens (snd (get_recent_trades_all_tokens b now r1 r2)) rest)"
    by (rule "2.IH")
  finally show ?case by simp
qed

text \<open>
  C8. In \<^verbatim>\<open>bot_railway_futures.py\<close> a call of \<^verbatim>\<open>get_recent_trades_all_tokens\<close>
  leaves in the cache the tokens it held united with the names it fetched (those of the
  hourly update, those of the request made on an empty cache, or none); it returns the
  cache; no token is ever removed, so after any further calls the cache contains every
  earlier cache.
\<close>

theorem catalog_only_grows:
  "(\<exists>new. all_tokens (snd (get_recent_trades_all_tokens b now r1 r2)) = all_tokens b \<union> set new
          \<and> (new = [] \<or> new = get_all_tradable_assets r1 \<or> new = get_all_tradable_assets r2))
   \<and> (3600 < now - last_token_update b \<and> get_all_tradable_assets r1 \<noteq> [] \<longrightarrow>
        all_tokens (snd (get_recent_trades_all_tokens b now r1 r2)) =
        all_tokens b \<union> set (get_all_tradable_assets r1))
   \<and> fst (get_recent_trades_all_tokens b now r1 r2) =
       all_tokens (snd (get_recent_trades_all_tokens b now r1 r2))
   \<and> all_tokens b \<subseteq> all_tokens (snd (get_recent_trades_all_tokens b now r1 r2))
   \<and> all_tokens (run_tokens b xs) \<subseteq> all_tokens (run_tokens b (xs @ ys))"
proof (intro conjI impI)
  show "\<exists>new. all_tokens (snd (get_recent_trades_all_tokens b now r1 r2)) = all_tokens b \<union> set new
          \<and> (new = [] \<or> new = get_all_tradable_assets r1 \<or> new = get_all_tradable_assets r2)"
    by (rule tokens_step)
next
  assume "3600 < now - last_token_update b \<and> get_all_tradable_assets r1 \<noteq> []"
  then show "all_tokens (snd (get_recent_trades_all_tokens b now r1 r2)) =
        all_tokens b \<union> set (get_all_tradable_assets r1)"
    by (simp add: get_recent_trades_all_tokens_def Let_def)
next
  show "fst (get_recent_trades_all_tokens b now r1 r2) =
       all_tokens (snd (get_recent_trades_all_tokens b now r1 r2))"
    by (simp add: get_recent_trades_all_tokens_def Let_def)
next
  show "all_tokens b \<subseteq> all_tokens (snd (get_recent_trades_all_tokens b now r1 r2))"
    by (rule tokens_step_mono)
next
  show "all_tokens (run_tokens b xs) \<subseteq> all_tokens (run_tokens b (xs @ ys))"
    unfolding run_tokens_append by (rule run_tokens_mono)
qed

lemma tokens_example:
  "all_tokens (run_tokens init_futures_bot
     [(1700000000, Universe [Some ''BTC'', Some ''ETH''], MetaError)]) = {''BTC'', ''ETH''}"
  "all_tokens (run_tokens init_futures_bot
     [(1700000000, Universe [Some ''BTC'', Some ''ETH''], MetaError),
      (1700003700, Universe [Some ''SOL''], MetaError)]) = {''BTC'', ''ETH'', ''SOL''}"
  by (auto simp: init_futures_bot_def get_recent_trades_all_tokens_def
      get_all_tradable_assets_def List.map_filter_def Let_def)

text \<open>
  A first update finds BTC and ETH; an update one hour later finds only SOL: BTC and ETH
  stay in the cache.
\<close>

theorem catalog_only_grows_witness:
  "all_tokens (run_tokens init_futures_bot
     [(1700000000, Universe [Some ''BTC'', Some ''ETH''], MetaError)])
   \<subseteq> all_tokens (run_tokens init_futures_bot
     ([(1700000000, Universe [Some ''BTC'', Some ''ETH''], MetaError)]
      @ [(1700003700, Universe [Some ''SOL''], MetaError)]))
   \<and> all_tokens (run_tokens init_futures_bot
     [(1700000000, Universe [Some ''BTC'', Some ''ETH''], MetaError),
      (1700003700, Universe [Some ''SOL''], MetaError)]) = {''BTC'', ''ETH'', ''SOL''}"
  using catalog_only_grows [of init_futures_bot 0 MetaError MetaError
      "[(1700000000, Universe [Some ''BTC'', Some ''ETH''], MetaError)]"
      "[(1700003700, Universe [Some ''SOL''], MetaError)]"]
    tokens_example(2)
  by blast

text \<open>
  C9 fails on the code. In \<^verbatim>\<open>bot_railway_futures.py\<close>, with an empty cache and both
  \<^verbatim>\<open>meta\<close> requests failing, \<^verbatim>\<open>get_recent_trades_all_tokens\<close> returns the empty
  collection: \<^verbatim>\<open>get_all_tradable_assets\<close> has caught the exception and returned the
  empty list, so the fallback of the \<^verbatim>\<open>except\<close> branch is not reached. In
  \<^verbatim>\<open>bot_final_liquidations.py\<close>, \<^verbatim>\<open>get_all_coins\<close> returns the fallback list when the
  request fails or the answer has no universe, but the empty list when the universe is
  empty or none of its assets has a name.
\<close>

theorem symbol_set_can_be_empty:
  "get_recent_trades_all_tokens init_futures_bot 1700000000 MetaError MetaError
     = ({}, init_futures_bot)
   \<and> get_all_coins (Universe []) = []
   \<and> get_all_coins (Universe [None, None]) = []
   \<and> get_all_coins MetaError = [''BTC'', ''ETH'', ''SOL'', ''AVAX'', ''DOGE'']
   \<and> get_all_coins NoUniverse = [''BTC'', ''ETH'', ''SOL'', ''AVAX'', ''DOGE'']"
  by (simp add: init_futures_bot_def get_recent_trades_all_tokens_def
      get_all_tradable_assets_def get_all_coins_def List.map_filter_def)

end
